theory Spec2Isabelle
  imports Main "HOL-Library.AList"
begin

section \<open>Strings\<close>

text \<open>
  Keys and language codes are \<open>string\<close>s. \<open>endsWith s suf\<close> is JavaScript's
  \<^verbatim>\<open>s.endsWith(suf)\<close> and \<open>slice0 s n\<close> is \<^verbatim>\<open>s.slice(0, -n)\<close>, which yields the
  empty string when \<open>s\<close> is shorter than \<open>n\<close>.
\<close>

definition endsWith :: "string \<Rightarrow> string \<Rightarrow> bool" where
  "endsWith s suf = (length suf \<le> length s \<and> drop (length s - length suf) s = suf)"

definition slice0 :: "string \<Rightarrow> nat \<Rightarrow> string" where
  "slice0 s n = take (length s - n) s"

section \<open>JavaScript values in a store\<close>

text \<open>
  \<open>processObject\<close> keeps a set of the composite values it has met, by reference, so
  arrays and objects live in a store and a value names them by address. An object of the
  store is the list of its own properties as \<^verbatim>\<open>Object.entries\<close> enumerates them, and its
  prototype is \<^verbatim>\<open>Object.prototype\<close>; a key may be any string, also \<^verbatim>\<open>__proto__\<close> (as
  \<^verbatim>\<open>JSON.parse\<close> creates it), but not an array index, which JavaScript enumerates first.
  Numbers are integers here; the formatter only passes them on.
\<close>

type_synonym addr = nat

datatype val = VNull | VBool bool | VNum int | VStr string | VRef addr

datatype cell = Arr "val list" | Obj "(string \<times> val) list"

type_synonym heap = "cell list"

definition lookup :: "heap \<Rightarrow> addr \<Rightarrow> cell option" where
  "lookup h a = (if a < length h then Some (h ! a) else None)"

text \<open>
  The errors: the two JavaScript raises, and \<open>NoSuchAddress\<close> for an address outside the
  store, which no JavaScript reference is.
\<close>

datatype error = RangeError | TypeError | NoSuchAddress

text \<open>
  What the formatter returns: a value handed over as it is (\<open>Val\<close>: a scalar, the
  \<^verbatim>\<open>null\<close> placeholder, or an input value stored without a visit), or an array or object
  built by the formatter itself. A new object has its own properties and, when an
  assignment has replaced \<^verbatim>\<open>Object.prototype\<close>, the prototype it was given.
\<close>

datatype out = Val val | NewArr "out list" | NewObj "out option" "(string \<times> out) list"

definition truthy :: "val \<Rightarrow> bool" where
  "truthy v = (case v of VNull \<Rightarrow> False | VBool b \<Rightarrow> b | VNum n \<Rightarrow> n \<noteq> 0
                | VStr s \<Rightarrow> s \<noteq> [] | VRef a \<Rightarrow> True)"

section \<open>Assignment to a property of a new object\<close>

text \<open>
  \<^verbatim>\<open>processed[k] = v\<close> creates or overwrites the own property \<open>k\<close>, except for the key
  \<^verbatim>\<open>__proto__\<close> while the object inherits the accessor of that name from
  \<^verbatim>\<open>Object.prototype\<close>: then the setter runs, which replaces the prototype when \<open>v\<close> is
  an object or \<^verbatim>\<open>null\<close> and does nothing otherwise, and no own property is made.
  \<open>hasProtoSetter h x\<close> says that a lookup of \<^verbatim>\<open>__proto__\<close> starting at \<open>x\<close> ends at
  that accessor: no object on the prototype chain has an own property of the name, and the
  chain does not end in \<^verbatim>\<open>null\<close> before.
\<close>

fun isObjectOrNull :: "out \<Rightarrow> bool" where
  "isObjectOrNull (Val VNull) = True"
| "isObjectOrNull (Val (VRef a)) = True"
| "isObjectOrNull (Val v) = False"
| "isObjectOrNull (NewArr xs) = True"
| "isObjectOrNull (NewObj proto ps) = True"

fun hasProtoSetter :: "heap \<Rightarrow> out \<Rightarrow> bool" where
  "hasProtoSetter h (NewObj proto ps) =
     (''__proto__'' \<notin> fst ` set ps
      \<and> (case proto of None \<Rightarrow> True | Some p \<Rightarrow> hasProtoSetter h p))"
| "hasProtoSetter h (NewArr xs) = True"
| "hasProtoSetter h (Val (VRef a)) =
     (case lookup h a of
        Some (Obj es) \<Rightarrow> ''__proto__'' \<notin> fst ` set es
      | Some (Arr items) \<Rightarrow> True
      | None \<Rightarrow> False)"
| "hasProtoSetter h (Val v) = False"

fun assign :: "heap \<Rightarrow> string \<Rightarrow> out \<Rightarrow> out option \<times> (string \<times> out) list
                 \<Rightarrow> out option \<times> (string \<times> out) list" where
  "assign h k v (proto, ps) =
     (if k = ''__proto__'' \<and> hasProtoSetter h (NewObj proto ps)
      then (if isObjectOrNull v then (Some v, ps) else (proto, ps))
      else (proto, AList.update k v ps))"

section \<open>formatResponse (backend/middleware/rtlSupport.js)\<close>

text \<open>
  \<open>processObject\<close> threads the \<^verbatim>\<open>seen\<close> set through the walk and returns it with the
  result. \<open>mapItems\<close> is \<^verbatim>\<open>obj.map(processObject)\<close>, \<open>forEntries\<close> the loop over
  \<^verbatim>\<open>Object.entries(obj)\<close> with \<^verbatim>\<open>processed\<close>, prototype and own properties, as
  accumulator. The recursion runs on the call stack: the first argument is the number of
  nested activations of \<^verbatim>\<open>processObject\<close> the stack still has room for, every call takes
  one, and a call without room raises \<^verbatim>\<open>RangeError\<close>. The frames of \<^verbatim>\<open>map\<close> and of its
  callback are not counted apart.
\<close>

function (sequential) processObject :: "nat \<Rightarrow> heap \<Rightarrow> bool \<Rightarrow> addr set \<Rightarrow> val \<Rightarrow> error + (out \<times> addr set)"
  and mapItems :: "nat \<Rightarrow> heap \<Rightarrow> bool \<Rightarrow> addr set \<Rightarrow> val list \<Rightarrow> error + (out list \<times> addr set)"
  and forEntries :: "nat \<Rightarrow> heap \<Rightarrow> bool \<Rightarrow> addr set \<Rightarrow> (string \<times> val) list
                      \<Rightarrow> out option \<times> (string \<times> out) list
                      \<Rightarrow> error + ((out option \<times> (string \<times> out) list) \<times> addr set)"
where
  "processObject 0 h rtl seen obj = Inl RangeError"
| "processObject (Suc stack) h rtl seen VNull = Inr (Val VNull, seen)"
| "processObject (Suc stack) h rtl seen (VBool b) = Inr (Val (VBool b), seen)"
| "processObject (Suc stack) h rtl seen (VNum n) = Inr (Val (VNum n), seen)"
| "processObject (Suc stack) h rtl seen (VStr s) = Inr (Val (VStr s), seen)"
| "processObject (Suc stack) h rtl seen (VRef a) =
     (if a \<in> seen then Inr (Val VNull, seen)
      else (case lookup h a of
              None \<Rightarrow> Inl NoSuchAddress
            | Some (Arr items) \<Rightarrow>
                (case mapItems stack h rtl (insert a seen) items of
                   Inl e \<Rightarrow> Inl e
                 | Inr (rs, seen') \<Rightarrow> Inr (NewArr rs, seen'))
            | Some (Obj entries) \<Rightarrow>
                (case forEntries stack h rtl (insert a seen) entries (None, []) of
                   Inl e \<Rightarrow> Inl e
                 | Inr ((proto, processed), seen') \<Rightarrow> Inr (NewObj proto processed, seen'))))"
| "mapItems stack h rtl seen [] = Inr ([], seen)"
| "mapItems stack h rtl seen (item # items) =
     (case processObject stack h rtl seen item of
        Inl e \<Rightarrow> Inl e
      | Inr (r, seen1) \<Rightarrow>
          (case mapItems stack h rtl seen1 items of
             Inl e \<Rightarrow> Inl e
           | Inr (rs, seen2) \<Rightarrow> Inr (r # rs, seen2)))"
| "forEntries stack h rtl seen [] processed = Inr (processed, seen)"
| "forEntries stack h rtl seen ((key, value) # rest) processed =
     (if endsWith key ''Ar'' \<and> rtl then
        forEntries stack h rtl seen rest (assign h (slice0 key 2) (Val value) processed)
      else if \<not> endsWith key ''Ar'' then
        (case processObject stack h rtl seen value of
           Inl e \<Rightarrow> Inl e
         | Inr (r, seen1) \<Rightarrow> forEntries stack h rtl seen1 rest (assign h key r processed))
      else forEntries stack h rtl seen rest processed)"
  by pat_completeness auto

termination
  by (relation "measures [\<lambda>x. case x of Inl (n, _) \<Rightarrow> n | Inr (Inl (n, _)) \<Rightarrow> n
                                        | Inr (Inr (n, _)) \<Rightarrow> n,
                          \<lambda>x. case x of Inl _ \<Rightarrow> 0
                                        | Inr (Inl (_, _, _, _, vs)) \<Rightarrow> Suc (length vs)
                                        | Inr (Inr (_, _, _, _, es, _)) \<Rightarrow> Suc (length es)]")
     auto

text \<open>
  The request as the middleware leaves it: \<^verbatim>\<open>req.language\<close>, \<^verbatim>\<open>req.isRTL\<close> and
  \<^verbatim>\<open>req.direction\<close>.
\<close>

record req =
  language :: string
  isRTL :: bool
  direction :: string

text \<open>
  \<^verbatim>\<open>formatResponse(data, req)\<close>: falsy data is returned as it is; otherwise the walk
  starts from an empty \<^verbatim>\<open>seen\<close> set, with \<^verbatim>\<open>isRTL\<close> read from the request. The first
  argument is the room on the stack at the call of \<^verbatim>\<open>processObject\<close>.
\<close>

definition formatResponse :: "nat \<Rightarrow> heap \<Rightarrow> val \<Rightarrow> req \<Rightarrow> error + out" where
  "formatResponse stack h data r =
     (if \<not> truthy data then Inr (Val data)
      else (case processObject stack h (isRTL r) {} data of
              Inl e \<Rightarrow> Inl e
            | Inr (x, seen') \<Rightarrow> Inr x))"



text \<open>
  A store is closed when every address in it points into it, as every reference of a
  JavaScript heap does.
\<close>

definition valid :: "heap \<Rightarrow> val \<Rightarrow> bool" where
  "valid h v = (case v of VRef a \<Rightarrow> a < length h | _ \<Rightarrow> True)"

fun cellVals :: "cell \<Rightarrow> val list" where
  "cellVals (Arr items) = items"
| "cellVals (Obj entries) = map snd entries"

definition closed :: "heap \<Rightarrow> bool" where
  "closed h = (\<forall>c \<in> set h. \<forall>v \<in> set (cellVals c). valid h v)"

text \<open>
  A store of \<open>m + 1\<close> arrays, each but the last holding the next: nesting of depth
  \<open>m + 1\<close>, without a cycle.
\<close>

definition deepStore :: "nat \<Rightarrow> heap" where
  "deepStore m = map (\<lambda>i. Arr [VRef (Suc i)]) [0..<m] @ [Arr []]"

section \<open>JSON documents held in the store\<close>

text \<open>
  A JSON document is a tree. \<open>repr h v t A\<close> says that the value \<open>v\<close> of the store
  \<open>h\<close> is the document \<open>t\<close> with no array or object referenced twice: every array and
  object of \<open>t\<close> has a cell of its own, and \<open>A\<close> is the set of their addresses. Keys of
  an object are distinct.
\<close>

datatype json = JNull | JBool bool | JNum int | JStr string
  | JArr "json list" | JObj "(string \<times> json) list"

inductive repr :: "heap \<Rightarrow> val \<Rightarrow> json \<Rightarrow> addr set \<Rightarrow> bool"
  and reprs :: "heap \<Rightarrow> val list \<Rightarrow> json list \<Rightarrow> addr set \<Rightarrow> bool"
  and reprEntries :: "heap \<Rightarrow> (string \<times> val) list \<Rightarrow> (string \<times> json) list \<Rightarrow> addr set \<Rightarrow> bool"
  for h :: heap
where
  repr_null: "repr h VNull JNull {}"
| repr_bool: "repr h (VBool b) (JBool b) {}"
| repr_num: "repr h (VNum n) (JNum n) {}"
| repr_str: "repr h (VStr s) (JStr s) {}"
| repr_arr: "lookup h a = Some (Arr vs) \<Longrightarrow> reprs h vs ts A \<Longrightarrow> a \<notin> A
             \<Longrightarrow> repr h (VRef a) (JArr ts) (insert a A)"
| repr_obj: "lookup h a = Some (Obj kvs) \<Longrightarrow> reprEntries h kvs es A \<Longrightarrow> a \<notin> A
             \<Longrightarrow> distinct (map fst kvs) \<Longrightarrow> repr h (VRef a) (JObj es) (insert a A)"
| reprs_nil: "reprs h [] [] {}"
| reprs_cons: "repr h v t A \<Longrightarrow> reprs h vs ts B \<Longrightarrow> A \<inter> B = {}
             \<Longrightarrow> reprs h (v # vs) (t # ts) (A \<union> B)"
| reprEntries_nil: "reprEntries h [] [] {}"
| reprEntries_cons: "repr h v t A \<Longrightarrow> reprEntries h kvs es B \<Longrightarrow> A \<inter> B = {}
             \<Longrightarrow> reprEntries h ((k, v) # kvs) ((k, t) # es) (A \<union> B)"

text \<open>
  The document as a formatter result: every array and object built anew, prototypes left
  alone.
\<close>

primrec embed :: "json \<Rightarrow> out" where
  "embed JNull = Val VNull"
| "embed (JBool b) = Val (VBool b)"
| "embed (JNum n) = Val (VNum n)"
| "embed (JStr s) = Val (VStr s)"
| "embed (JArr ts) = NewArr (map embed ts)"
| "embed (JObj es) = NewObj None (map (map_prod id embed) es)"

text \<open>No key of the document, at any depth, ends in \<^verbatim>\<open>Ar\<close> or is \<^verbatim>\<open>__proto__\<close>.\<close>

primrec plainKeys :: "json \<Rightarrow> bool" where
  "plainKeys JNull = True"
| "plainKeys (JBool b) = True"
| "plainKeys (JNum n) = True"
| "plainKeys (JStr s) = True"
| "plainKeys (JArr ts) = list_all id (map plainKeys ts)"
| "plainKeys (JObj es) =
     list_all id (map (\<lambda>e. \<not> endsWith (fst e) ''Ar'' \<and> fst e \<noteq> ''__proto__'' \<and> snd e)
                      (map (map_prod id plainKeys) es))"




section \<open>rtlSupport (backend/middleware/rtlSupport.js)\<close>

text \<open>
  \<^verbatim>\<open>req.query.lang\<close> is absent, a string, or (a repeated or bracketed parameter) an array
  or object. \<open>split c s\<close> is \<^verbatim>\<open>s.split(c)\<close> for a separator of one character, which
  never returns an empty array. \<open>toLowerCase\<close> lowers the letters A to Z.
\<close>

datatype qparam = QString string | QComposite

record request =
  queryLang :: "qparam option"
  acceptLanguage :: "string option"

fun split :: "char \<Rightarrow> string \<Rightarrow> string list" where
  "split c [] = [[]]"
| "split c (x # xs) =
     (if x = c then [] # split c xs
      else (case split c xs of w # ws \<Rightarrow> (x # w) # ws | [] \<Rightarrow> [[x]]))"

definition toLowerCase :: "string \<Rightarrow> string" where
  "toLowerCase s =
     map (\<lambda>c. if 65 \<le> (of_char c :: nat) \<and> (of_char c :: nat) \<le> 90
              then char_of ((of_char c :: nat) + 32) else c) s"

definition rtlLanguages :: "string list" where
  "rtlLanguages = [''ar'', ''he'', ''fa'', ''ur'', ''ku'', ''dv'']"

text \<open>
  \<^verbatim>\<open>a || b || "en"\<close>: the first truthy operand. An absent parameter and the empty string
  are falsy, an array or object is truthy.
\<close>

definition headerLanguage :: "request \<Rightarrow> string option" where
  "headerLanguage rq =
     (case acceptLanguage rq of
        None \<Rightarrow> None
      | Some hdr \<Rightarrow> Some (hd (split (CHR ''-'') (hd (split (CHR '','') hdr)))))"

text \<open>
  The primary subtag in the words of the specification: the text before the first hyphen
  of the first comma-separated entry.
\<close>

definition primarySubtag :: "string \<Rightarrow> string" where
  "primarySubtag hdr =
     takeWhile (\<lambda>c. c \<noteq> CHR ''-'') (takeWhile (\<lambda>c. c \<noteq> CHR '','') hdr)"

definition resolveLanguage :: "request \<Rightarrow> qparam" where
  "resolveLanguage rq =
     (case queryLang rq of
        Some QComposite \<Rightarrow> QComposite
      | Some (QString s) \<Rightarrow>
          if s \<noteq> [] then QString s
          else (case headerLanguage rq of
                  Some l \<Rightarrow> if l \<noteq> [] then QString l else QString ''en''
                | None \<Rightarrow> QString ''en'')
      | None \<Rightarrow>
          (case headerLanguage rq of
             Some l \<Rightarrow> if l \<noteq> [] then QString l else QString ''en''
           | None \<Rightarrow> QString ''en''))"

text \<open>
  \<^verbatim>\<open>language.toLowerCase()\<close> throws a TypeError when \<^verbatim>\<open>language\<close> is not a string.
\<close>

definition rtlSupport :: "request \<Rightarrow> error + req" where
  "rtlSupport rq =
     (case resolveLanguage rq of
        QComposite \<Rightarrow> Inl TypeError
      | QString l \<Rightarrow>
          (let rtl = toLowerCase l \<in> set rtlLanguages
           in Inr \<lparr>language = l, isRTL = rtl, direction = (if rtl then ''rtl'' else ''ltr'')\<rparr>))"

section \<open>formatResponseMiddleware (backend/middleware/rtlSupport.js)\<close>

text \<open>
  \<open>jsonHook\<close> is the function put in place of \<^verbatim>\<open>res.json\<close>; its result is what reaches
  the original \<^verbatim>\<open>res.json\<close>. \<open>getProp\<close> reads a property, own or inherited along the
  prototype chain, for the names \<^verbatim>\<open>status\<close> and \<^verbatim>\<open>data\<close>, which neither
  \<^verbatim>\<open>Object.prototype\<close> nor an array defines; reading a property of \<^verbatim>\<open>null\<close> throws.
\<close>

fun getProp :: "heap \<Rightarrow> out \<Rightarrow> string \<Rightarrow> out option" where
  "getProp h (NewObj proto ps) k =
     (case map_of ps k of
        Some v \<Rightarrow> Some v
      | None \<Rightarrow> (case proto of None \<Rightarrow> None | Some p \<Rightarrow> getProp h p k))"
| "getProp h (NewArr xs) k = None"
| "getProp h (Val (VRef a)) k =
     (case lookup h a of
        Some (Obj es) \<Rightarrow> map_option Val (map_of es k)
      | Some (Arr items) \<Rightarrow> None
      | None \<Rightarrow> None)"
| "getProp h (Val v) k = None"

definition truthyOut :: "out \<Rightarrow> bool" where
  "truthyOut x = (case x of Val v \<Rightarrow> truthy v | NewArr rs \<Rightarrow> True | NewObj proto ps \<Rightarrow> True)"

definition languageBlock :: "req \<Rightarrow> out" where
  "languageBlock r =
     NewObj None [(''code'', Val (VStr (language r))),
                  (''direction'', Val (VStr (direction r))),
                  (''isRTL'', Val (VBool (isRTL r)))]"

definition jsonHook :: "nat \<Rightarrow> req \<Rightarrow> heap \<Rightarrow> val \<Rightarrow> error + out" where
  "jsonHook stack r h data =
     (case data of
        VRef a \<Rightarrow>
          (case formatResponse stack h data r of
             Inl e \<Rightarrow> Inl e
           | Inr (NewObj proto ps) \<Rightarrow>
               if getProp h (NewObj proto ps) ''status'' = Some (Val (VStr ''success''))
                  \<and> (case getProp h (NewObj proto ps) ''data'' of
                        None \<Rightarrow> False | Some d \<Rightarrow> truthyOut d)
               then (case assign h ''language'' (languageBlock r) (proto, ps) of
                       (proto', ps') \<Rightarrow> Inr (NewObj proto' ps'))
               else Inr (NewObj proto ps)
           | Inr (NewArr rs) \<Rightarrow> Inr (NewArr rs)
           | Inr (Val v) \<Rightarrow> Inl TypeError)
      | _ \<Rightarrow> Inr (Val data))"

section \<open>Admin routes (backend/routes/admin.js and its second copy)\<close>

text \<open>
  A stored document, with the two fields the routes below read or write. \<open>isIn\<close> is the
  validator \<^verbatim>\<open>body("status").isIn([...])\<close>: a validation chain records its verdict on the
  request and passes control on; a handler learns of it by asking for the validation
  result.
\<close>

record doc =
  status :: string
  createdAt :: int

definition isIn :: "string \<Rightarrow> string list \<Rightarrow> bool" where
  "isIn s allowed = (s \<in> set allowed)"

definition bookingStatuses :: "string list" where
  "bookingStatuses = [''pending'', ''confirmed'', ''in-progress'', ''completed'', ''cancelled'']"

definition bookingStatusValidator :: "string \<Rightarrow> string list" where
  "bookingStatusValidator s = (if isIn s bookingStatuses then [] else [''Invalid status''])"

datatype response = Success doc | AppError nat string | SaveRejected

text \<open>
  \<^verbatim>\<open>PUT /bookings/:id/status\<close>. The handler looks the booking up, assigns the body's
  status and saves; it never asks for the validation result. Whether \<^verbatim>\<open>save\<close> accepts a
  document is decided by the schema of the Booking model, which is a parameter here. The
  result is the recorded validation errors, the response and the stored bookings.
\<close>

definition putBookingStatus ::
  "(doc \<Rightarrow> bool) \<Rightarrow> (string \<rightharpoonup> doc) \<Rightarrow> string \<Rightarrow> string
     \<Rightarrow> string list \<times> response \<times> (string \<rightharpoonup> doc)" where
  "putBookingStatus schema bookings bid bodyStatus =
     (let errors = bookingStatusValidator bodyStatus in
      case bookings bid of
        None \<Rightarrow> (errors, AppError 404 ''Booking not found'', bookings)
      | Some booking \<Rightarrow>
          (let booking' = booking\<lparr>status := bodyStatus\<rparr> in
           if schema booking' then (errors, Success booking', bookings(bid \<mapsto> booking'))
           else (errors, SaveRejected, bookings)))"

text \<open>
  The status lists of \<^verbatim>\<open>PUT /contacts/:id/status\<close> in the two copies of the admin
  routes, and the buttons of the contact modal.
\<close>

definition contactStatusesAdmin :: "string list" where
  "contactStatusesAdmin = [''new'', ''read'', ''replied'', ''closed'']"

definition contactStatusesCopy :: "string list" where
  "contactStatusesCopy = [''new'', ''in-progress'', ''resolved'', ''closed'']"

definition contactModalStatuses :: "string list" where
  "contactModalStatuses = [''new'', ''in-progress'', ''resolved'', ''closed'']"

text \<open>
  \<^verbatim>\<open>GET /dashboard\<close>. A query is a conjunction of conditions; \<^verbatim>\<open>countDocuments\<close>
  counts the documents of a collection that meet it. The start of the month is computed
  from the clock by the handler and is a parameter here. The revenue and the two lists of
  recent documents are left out.
\<close>

datatype cond = StatusIs string | CreatedAtGte int

fun holds :: "doc \<Rightarrow> cond \<Rightarrow> bool" where
  "holds d (StatusIs s) = (status d = s)"
| "holds d (CreatedAtGte t) = (t \<le> createdAt d)"

definition countDocuments :: "doc list \<Rightarrow> cond list \<Rightarrow> nat" where
  "countDocuments coll query = length (filter (\<lambda>d. list_all (holds d) query) coll)"

record database =
  users :: "doc list"
  services :: "doc list"
  blogs :: "doc list"
  contacts :: "doc list"
  bookings :: "doc list"

record dashboardData =
  totalUsers :: nat
  totalServices :: nat
  totalBlogs :: nat
  totalContacts :: nat
  newContacts :: nat
  totalBookings :: nat
  pendingBookings :: nat
  monthlyBookings :: nat
  monthlyContacts :: nat

definition dashboard :: "database \<Rightarrow> int \<Rightarrow> dashboardData" where
  "dashboard db startOfMonth =
     \<lparr>totalUsers = countDocuments (users db) [],
      totalServices = countDocuments (services db) [],
      totalBlogs = countDocuments (blogs db) [],
      totalContacts = countDocuments (contacts db) [],
      newContacts = countDocuments (contacts db) [StatusIs ''new''],
      totalBookings = countDocuments (bookings db) [],
      pendingBookings = countDocuments (bookings db) [StatusIs ''pending''],
      monthlyBookings = countDocuments (bookings db) [CreatedAtGte startOfMonth],
      monthlyContacts = countDocuments (contacts db) [CreatedAtGte startOfMonth]\<rparr>"

section \<open>Auxiliary facts\<close>

lemma assign_other:
  "k \<noteq> ''__proto__'' \<Longrightarrow> assign h k v (p, ps) = (p, AList.update k v ps)"
  by simp







lemma slice0_append [simp]: "slice0 (p @ ''Ar'') 2 = p"
  by (simp add: slice0_def)

lemma endsWith_append [simp]: "endsWith (p @ suf) suf"
  by (simp add: endsWith_def)






lemma lookup_deepStore:
  "lookup (deepStore m) i =
     (if i < m then Some (Arr [VRef (Suc i)]) else if i = m then Some (Arr []) else None)"
  by (auto simp: lookup_def deepStore_def nth_append)

lemma deep_overflow:
  "i \<le> m \<Longrightarrow> \<forall>j \<in> seen. j < i \<Longrightarrow> n \<le> m - i \<Longrightarrow>
   processObject n (deepStore m) rtl seen (VRef i) = Inl RangeError"
proof (induction n arbitrary: i seen)
  case 0
  then show ?case by simp
next
  case (Suc n)
  from Suc.prems have i: "i < m" and ns: "i \<notin> seen" by auto
  have "processObject n (deepStore m) rtl (insert i seen) (VRef (Suc i)) = Inl RangeError"
    using Suc.prems by (intro Suc.IH) auto
  with i ns show ?case by (simp add: lookup_deepStore)
qed

lemma closed_deepStore: "closed (deepStore m)"
  by (auto simp: closed_def deepStore_def valid_def)

lemma deep_nesting_overflows:
  "closed (deepStore n) \<and> formatResponse n (deepStore n) (VRef 0) r = Inl RangeError"
  using deep_overflow[of 0 n "{}" n "isRTL r"]
  by (simp add: closed_deepStore formatResponse_def truthy_def)













lemma repr_finite:
  "repr h v t A \<Longrightarrow> finite A \<and> A \<subseteq> {..<length h}"
  "reprs h vs ts B \<Longrightarrow> finite B \<and> B \<subseteq> {..<length h}"
  "reprEntries h kvs es C \<Longrightarrow> finite C \<and> C \<subseteq> {..<length h} \<and> map fst kvs = map fst es"
  by (induction rule: repr_reprs_reprEntries.inducts) (auto simp: lookup_def split: if_splits)

lemma repr_falsy:
  "repr h data t A \<Longrightarrow> \<not> truthy data \<Longrightarrow> embed t = Val data"
  by (erule repr.cases) (simp_all add: truthy_def)




lemma card_Un_less:
  assumes "finite A" "finite B" "card (A \<union> B) < (n::nat)"
  shows "card A < n" "card B < n"
proof -
  have "card A \<le> card (A \<union> B)" "card B \<le> card (A \<union> B)"
    using assms(1,2) by (auto intro: card_mono)
  with assms(3) show "card A < n" "card B < n" by simp_all
qed


lemma split_nonempty: "split c s \<noteq> []"
  by (induction s) (auto split: list.splits)

lemma hd_split: "hd (split c s) = takeWhile (\<lambda>x. x \<noteq> c) s"
  by (induction s) (auto simp: split_nonempty split: list.splits)

lemma headerLanguage_primary:
  "headerLanguage rq = map_option primarySubtag (acceptLanguage rq)"
  by (cases "acceptLanguage rq") (simp_all add: headerLanguage_def primarySubtag_def hd_split)

lemma resolveLanguage_string:
  assumes "queryLang rq \<noteq> Some QComposite"
  shows "\<exists>l. resolveLanguage rq = QString l
     \<and> (\<forall>s. queryLang rq = Some (QString s) \<and> s \<noteq> [] \<longrightarrow> l = s)
     \<and> (queryLang rq = None \<or> queryLang rq = Some (QString []) \<longrightarrow>
          (\<forall>hdr. acceptLanguage rq = Some hdr \<and> primarySubtag hdr \<noteq> [] \<longrightarrow> l = primarySubtag hdr)
        \<and> (acceptLanguage rq = None
            \<or> (\<exists>hdr. acceptLanguage rq = Some hdr \<and> primarySubtag hdr = []) \<longrightarrow> l = ''en''))"
proof (cases "queryLang rq")
  case None
  then show ?thesis
    by (cases "acceptLanguage rq")
       (simp_all add: resolveLanguage_def headerLanguage_primary)
next
  case (Some q)
  with assms obtain s where q: "q = QString s" by (cases q) auto
  show ?thesis
    using Some q
    by (cases "acceptLanguage rq")
       (simp_all add: resolveLanguage_def headerLanguage_primary)
qed

lemma rtlSupport_string:
  "resolveLanguage rq = QString l \<Longrightarrow>
   rtlSupport rq = Inr \<lparr>language = l, isRTL = (toLowerCase l \<in> set rtlLanguages),
                        direction = (if toLowerCase l \<in> set rtlLanguages then ''rtl'' else ''ltr'')\<rparr>"
  by (simp add: rtlSupport_def Let_def)

lemma rtl_neq_ltr: "''rtl'' \<noteq> ''ltr''"
  by simp

lemma count_card: "countDocuments coll q = card {i. i < length coll \<and> (\<forall>c \<in> set q. holds (coll ! i) c)}"
  by (simp add: countDocuments_def length_filter_conv_card list_all_iff)





lemma update_fresh: "k \<notin> fst ` set al \<Longrightarrow> AList.update k v al = al @ [(k, v)]"
  by (induction al) auto

lemma noop_all:
  "repr h v t A \<Longrightarrow> (\<forall>stack seen. plainKeys t \<longrightarrow> A \<inter> seen = {} \<longrightarrow> card A < stack \<longrightarrow>
      processObject stack h rtl seen v = Inr (embed t, seen \<union> A))"
  "reprs h vs ts B \<Longrightarrow> (\<forall>stack seen. list_all plainKeys ts \<longrightarrow> B \<inter> seen = {} \<longrightarrow> card B < stack \<longrightarrow>
      mapItems stack h rtl seen vs = Inr (map embed ts, seen \<union> B))"
  "reprEntries h kvs es C \<Longrightarrow> (\<forall>stack seen p (acc :: (string \<times> out) list).
      list_all (\<lambda>e. \<not> endsWith (fst e) ''Ar'' \<and> fst e \<noteq> ''__proto__'' \<and> plainKeys (snd e)) es \<longrightarrow>
      distinct (map fst es) \<longrightarrow> fst ` set acc \<inter> fst ` set es = {} \<longrightarrow>
      C \<inter> seen = {} \<longrightarrow> card C < stack \<longrightarrow>
      forEntries stack h rtl seen kvs (p, acc)
        = Inr ((p, acc @ map (map_prod id embed) es), seen \<union> C))"
proof (induction rule: repr_reprs_reprEntries.inducts)
  case repr_null
  show ?case by (auto simp: gr0_conv_Suc)
next
  case (repr_bool b)
  show ?case by (auto simp: gr0_conv_Suc)
next
  case (repr_num n)
  show ?case by (auto simp: gr0_conv_Suc)
next
  case (repr_str s)
  show ?case by (auto simp: gr0_conv_Suc)
next
  case (repr_arr a vs ts A)
  have fin: "finite A" using repr_finite(2)[OF repr_arr(2)] by simp
  show ?case
  proof (intro allI impI)
    fix stack seen
    assume n: "plainKeys (JArr ts)" and d: "insert a A \<inter> seen = {}"
      and c: "card (insert a A) < stack"
    from c fin repr_arr(4) obtain f where f: "stack = Suc f" "card A < f"
      by (cases stack) auto
    from n have n': "list_all plainKeys ts" by (simp add: list_all_iff)
    from d repr_arr(4) have d': "A \<inter> insert a seen = {}" "a \<notin> seen" by auto
    have "mapItems f h rtl (insert a seen) vs = Inr (map embed ts, insert a seen \<union> A)"
      using repr_arr(3)[rule_format, where stack = f and seen = "insert a seen"] n' d'(1) f(2)
      by simp
    with repr_arr(1) d'(2) f(1)
    show "processObject stack h rtl seen (VRef a) = Inr (embed (JArr ts), seen \<union> insert a A)"
      by simp
  qed
next
  case (repr_obj a kvs es A)
  have fin: "finite A" and keys: "map fst kvs = map fst es"
    using repr_finite(3)[OF repr_obj(2)] by simp_all
  show ?case
  proof (intro allI impI)
    fix stack seen
    assume n: "plainKeys (JObj es)" and d: "insert a A \<inter> seen = {}"
      and c: "card (insert a A) < stack"
    from c fin repr_obj(4) obtain f where f: "stack = Suc f" "card A < f"
      by (cases stack) auto
    from n have n': "list_all (\<lambda>e. \<not> endsWith (fst e) ''Ar'' \<and> fst e \<noteq> ''__proto__''
        \<and> plainKeys (snd e)) es"
      by (simp add: list_all_iff)
    from d repr_obj(4) have d': "A \<inter> insert a seen = {}" "a \<notin> seen" by auto
    from repr_obj(5) keys have dist: "distinct (map fst es)" by simp
    have "forEntries f h rtl (insert a seen) kvs (None, [])
          = Inr ((None, [] @ map (map_prod id embed) es), insert a seen \<union> A)"
      using repr_obj(3)[rule_format, where acc = "[]" and p = None and stack = f
          and seen = "insert a seen"] n' dist d'(1) f(2) by simp
    with repr_obj(1) d'(2) f(1)
    show "processObject stack h rtl seen (VRef a) = Inr (embed (JObj es), seen \<union> insert a A)"
      by simp
  qed
next
  case reprs_nil
  show ?case by simp
next
  case (reprs_cons v t A vs ts B)
  have fin: "finite A" "finite B"
    using repr_finite(1)[OF reprs_cons(1)] repr_finite(2)[OF reprs_cons(3)] by simp_all
  show ?case
  proof (intro allI impI)
    fix stack seen
    assume n: "list_all plainKeys (t # ts)" and d: "(A \<union> B) \<inter> seen = {}"
      and c: "card (A \<union> B) < stack"
    note cs = card_Un_less[OF fin c]
    from reprs_cons(2) n d cs(1)
    have 1: "processObject stack h rtl seen v = Inr (embed t, seen \<union> A)" by auto
    have "B \<inter> (seen \<union> A) = {}" using d reprs_cons(5) by auto
    with reprs_cons(4) n cs(2)
    have 2: "mapItems stack h rtl (seen \<union> A) vs = Inr (map embed ts, (seen \<union> A) \<union> B)" by auto
    from 1 2 show "mapItems stack h rtl seen (v # vs) = Inr (map embed (t # ts), seen \<union> (A \<union> B))"
      by (simp add: Un_assoc)
  qed
next
  case reprEntries_nil
  show ?case by simp
next
  case (reprEntries_cons v t A kvs es B k)
  have fin: "finite A" "finite B"
    using repr_finite(1)[OF reprEntries_cons(1)] repr_finite(3)[OF reprEntries_cons(3)] by simp_all
  show ?case
  proof (intro allI impI)
    fix stack seen p and acc :: "(string \<times> out) list"
    assume n: "list_all (\<lambda>e. \<not> endsWith (fst e) ''Ar'' \<and> fst e \<noteq> ''__proto__''
                  \<and> plainKeys (snd e)) ((k, t) # es)"
      and dist: "distinct (map fst ((k, t) # es))"
      and fr: "fst ` set acc \<inter> fst ` set ((k, t) # es) = {}"
      and d: "(A \<union> B) \<inter> seen = {}" and c: "card (A \<union> B) < stack"
    note cs = card_Un_less[OF fin c]
    from n have nk: "\<not> endsWith k ''Ar''" and kp: "k \<noteq> ''__proto__''" and nt: "plainKeys t"
      and ne: "list_all (\<lambda>e. \<not> endsWith (fst e) ''Ar'' \<and> fst e \<noteq> ''__proto__''
                  \<and> plainKeys (snd e)) es" by simp_all
    from reprEntries_cons(2) nt d cs(1)
    have 1: "processObject stack h rtl seen v = Inr (embed t, seen \<union> A)" by auto
    have kf: "k \<notin> fst ` set acc" using fr by auto
    then have up: "AList.update k (embed t) acc = acc @ [(k, embed t)]" by (rule update_fresh)
    have fr': "fst ` set (acc @ [(k, embed t)]) \<inter> fst ` set es = {}"
      using fr dist by auto
    have dB: "B \<inter> (seen \<union> A) = {}" using d reprEntries_cons(5) by auto
    from dist have dist': "distinct (map fst es)" by simp
    have 2: "forEntries stack h rtl (seen \<union> A) kvs (p, acc @ [(k, embed t)])
             = Inr ((p, (acc @ [(k, embed t)]) @ map (map_prod id embed) es), (seen \<union> A) \<union> B)"
      using reprEntries_cons(4)[rule_format, where acc = "acc @ [(k, embed t)]" and p = p
          and stack = stack and seen = "seen \<union> A"] ne dist' fr' dB cs(2) by simp
    from 1 2 nk kp up
    show "forEntries stack h rtl seen ((k, v) # kvs) (p, acc)
          = Inr ((p, acc @ map (map_prod id embed) ((k, t) # es)), seen \<union> (A \<union> B))"
      by (simp add: Un_assoc)
  qed
qed


section \<open>The formatter on field pairs\<close>

text \<open>
  Claim C1: an object with both \<^verbatim>\<open>foo\<close> and \<^verbatim>\<open>fooAr\<close> is formatted under rtl to an
  object with the single key \<^verbatim>\<open>foo\<close> bound to the value of \<^verbatim>\<open>fooAr\<close>, whatever the order
  of the two keys. The loop assigns in the order of the entries, so with \<^verbatim>\<open>fooAr\<close> first
  the later assignment of \<^verbatim>\<open>foo\<close> wins: under rtl the result carries the base value,
  whatever room the stack has beyond the two activations needed.
\<close>

theorem rtl_pair_order_dependent:
  "formatResponse (Suc (Suc n)) [Obj [(''fooAr'', VStr ''b''), (''foo'', VStr ''a'')]] (VRef 0)
      \<lparr>language = ''ar'', isRTL = True, direction = ''rtl''\<rparr>
   = Inr (NewObj None [(''foo'', Val (VStr ''a''))])"
  by (simp add: formatResponse_def truthy_def lookup_def endsWith_def slice0_def)

text \<open>With the base key first the value of \<^verbatim>\<open>fooAr\<close> is the one kept.\<close>

lemma rtl_pair_base_first:
  "formatResponse (Suc (Suc n)) [Obj [(''foo'', VStr ''a''), (''fooAr'', VStr ''b'')]] (VRef 0)
      \<lparr>language = ''ar'', isRTL = True, direction = ''rtl''\<rparr>
   = Inr (NewObj None [(''foo'', Val (VStr ''b''))])"
  by (simp add: formatResponse_def truthy_def lookup_def endsWith_def slice0_def)

text \<open>
  Claim C2: pairs collapse in every object reachable in the payload, also inside the value
  of an \<^verbatim>\<open>Ar\<close> key selected under rtl. That value is stored as it is, without a call of
  \<^verbatim>\<open>processObject\<close>: the result below holds the input object at address 1, which still
  has both \<^verbatim>\<open>name\<close> and \<^verbatim>\<open>nameAr\<close>.
\<close>

theorem ar_value_not_traversed:
  "formatResponse (Suc n)
      [Obj [(''infoAr'', VRef 1)], Obj [(''name'', VStr ''a''), (''nameAr'', VStr ''b'')]]
      (VRef 0) \<lparr>language = ''ar'', isRTL = True, direction = ''rtl''\<rparr>
   = Inr (NewObj None [(''info'', Val (VRef 1))])"
  by (simp add: formatResponse_def truthy_def lookup_def endsWith_def slice0_def)




text \<open>
  For \<^verbatim>\<open>__proto__Ar\<close> under rtl the assignment runs the setter of \<^verbatim>\<open>__proto__\<close>, which
  ignores a string: the result has no key for it.
\<close>

lemma proto_ar_key_makes_no_own_key:
  "formatResponse 2 [Obj [(''id'', VNum 1), (''__proto__Ar'', VStr ''t'')]] (VRef 0)
      \<lparr>language = ''ar'', isRTL = True, direction = ''rtl''\<rparr>
   = Inr (NewObj None [(''id'', Val (VNum 1))])"
  by (simp add: formatResponse_def truthy_def lookup_def endsWith_def slice0_def numeral_2_eq_2)

section \<open>Termination, the stack and the cycle guard\<close>




text \<open>The same for every room \<open>n\<close>, on the closed store of \<open>n + 1\<close> nested arrays.\<close>

lemma deep_nesting_raises_for_every_room:
  "closed (deepStore n) \<and> formatResponse n (deepStore n) (VRef 0) r = Inl RangeError"
  by (rule deep_nesting_overflows)

section \<open>Documents without localized keys\<close>

text \<open>
  Claim C8: for an object none of whose keys, at any depth, ends in \<^verbatim>\<open>Ar\<close>, the result of
  \<^verbatim>\<open>formatResponse\<close> is structurally the object itself, in both directions. The guard
  against cycles answers every second visit, also without a cycle: an object referenced
  from two places is formatted at the first and replaced by \<^verbatim>\<open>null\<close> at the second, for
  every request.
\<close>

theorem shared_reference_nullified:
  "formatResponse (Suc (Suc (Suc n)))
      [Obj [(''first'', VRef 1), (''second'', VRef 1)], Obj [(''id'', VNum 1)]] (VRef 0) r
   = Inr (NewObj None [(''first'', NewObj None [(''id'', Val (VNum 1))]), (''second'', Val VNull)])"
  by (simp add: formatResponse_def truthy_def lookup_def endsWith_def slice0_def)

text \<open>An own key \<^verbatim>\<open>__proto__\<close>, as \<^verbatim>\<open>JSON.parse\<close> makes it, is lost as well.\<close>

lemma own_proto_key_dropped:
  "formatResponse (Suc (Suc n)) [Obj [(''id'', VNum 1), (''__proto__'', VNum 5)]] (VRef 0) r
   = Inr (NewObj None [(''id'', Val (VNum 1))])"
  by (simp add: formatResponse_def truthy_def lookup_def endsWith_def slice0_def)

text \<open>
  What holds: a JSON document with no array or object referenced twice and no key, at any
  depth, that ends in \<^verbatim>\<open>Ar\<close> or is \<^verbatim>\<open>__proto__\<close>, is returned as it is, in new arrays and
  objects with the same keys in the same order, when the stack has room.
\<close>

lemma formatResponse_noop:
  assumes "repr h data t A" and "plainKeys t" and "card A < stack"
  shows "formatResponse stack h data r = Inr (embed t)"
proof (cases "truthy data")
  case False
  with repr_falsy[OF assms(1)] show ?thesis by (simp add: formatResponse_def)
next
  case True
  from noop_all(1)[OF assms(1), of "isRTL r"] assms(2,3)
  have "processObject stack h (isRTL r) {} data = Inr (embed t, {} \<union> A)" by blast
  with True show ?thesis by (simp add: formatResponse_def)
qed

section \<open>Language resolution\<close>

text \<open>
  Claim C7, amended: for a request whose \<^verbatim>\<open>lang\<close> parameter is absent or a string, the
  resolved language is that parameter when it is present and not empty; otherwise the text
  before the first hyphen of the first comma-separated entry of the Accept-Language header
  when the header is present and that text is not empty; otherwise \<^verbatim>\<open>en\<close>. The direction
  is rtl exactly when the lower-cased language is one of ar, he, fa, ur, ku, dv, otherwise
  ltr, and \<^verbatim>\<open>isRTL\<close> says the same.
\<close>

theorem rtlSupport_resolution:
  assumes "queryLang rq \<noteq> Some QComposite"
  shows "\<exists>r. rtlSupport rq = Inr r
     \<and> (\<forall>s. queryLang rq = Some (QString s) \<and> s \<noteq> [] \<longrightarrow> language r = s)
     \<and> (queryLang rq = None \<or> queryLang rq = Some (QString []) \<longrightarrow>
          (\<forall>hdr. acceptLanguage rq = Some hdr \<and> primarySubtag hdr \<noteq> []
                 \<longrightarrow> language r = primarySubtag hdr)
        \<and> (acceptLanguage rq = None
            \<or> (\<exists>hdr. acceptLanguage rq = Some hdr \<and> primarySubtag hdr = [])
            \<longrightarrow> language r = ''en''))
     \<and> direction r =
         (if toLowerCase (language r) \<in> {''ar'', ''he'', ''fa'', ''ur'', ''ku'', ''dv''}
          then ''rtl'' else ''ltr'')
     \<and> (isRTL r \<longleftrightarrow> direction r = ''rtl'')"
proof -
  from resolveLanguage_string[OF assms] obtain l where l: "resolveLanguage rq = QString l"
    and q: "\<forall>s. queryLang rq = Some (QString s) \<and> s \<noteq> [] \<longrightarrow> l = s"
    and hd: "queryLang rq = None \<or> queryLang rq = Some (QString []) \<longrightarrow>
          (\<forall>hdr. acceptLanguage rq = Some hdr \<and> primarySubtag hdr \<noteq> [] \<longrightarrow> l = primarySubtag hdr)
        \<and> (acceptLanguage rq = None
            \<or> (\<exists>hdr. acceptLanguage rq = Some hdr \<and> primarySubtag hdr = []) \<longrightarrow> l = ''en'')"
    by blast
  have s: "set rtlLanguages = {''ar'', ''he'', ''fa'', ''ur'', ''ku'', ''dv''}"
    by (simp add: rtlLanguages_def)
  let ?r = "\<lparr>language = l, isRTL = (toLowerCase l \<in> set rtlLanguages),
             direction = (if toLowerCase l \<in> set rtlLanguages then ''rtl'' else ''ltr'')\<rparr>"
  have d: "isRTL ?r \<longleftrightarrow> direction ?r = ''rtl''"
    using rtl_neq_ltr by (cases "toLowerCase l \<in> set rtlLanguages") simp_all
  have "direction ?r =
         (if toLowerCase (language ?r) \<in> {''ar'', ''he'', ''fa'', ''ur'', ''ku'', ''dv''}
          then ''rtl'' else ''ltr'')"
    unfolding s[symmetric] by simp
  with rtlSupport_string[OF l] q hd d show ?thesis
    by (intro exI[of _ ?r]) simp
qed

text \<open>A request without \<^verbatim>\<open>lang\<close> and with a Hebrew Accept-Language header.\<close>

theorem rtlSupport_resolution_witness:
  "queryLang \<lparr>queryLang = None, acceptLanguage = Some ''he-IL,en;q=0.8''\<rparr> \<noteq> Some QComposite
   \<and> rtlSupport \<lparr>queryLang = None, acceptLanguage = Some ''he-IL,en;q=0.8''\<rparr>
       = Inr \<lparr>language = ''he'', isRTL = True, direction = ''rtl''\<rparr>"
  using rtlSupport_resolution[of "\<lparr>queryLang = None, acceptLanguage = Some ''he-IL,en;q=0.8''\<rparr>"]
  by (simp add: rtlSupport_def resolveLanguage_def headerLanguage_def toLowerCase_def
        rtlLanguages_def primarySubtag_def Let_def)

text \<open>
  A \<^verbatim>\<open>lang\<close> parameter that is present but empty is passed over: the language comes from
  the header.
\<close>

theorem empty_lang_falls_through:
  "rtlSupport \<lparr>queryLang = Some (QString ''''), acceptLanguage = Some ''ar-SA,ar;q=0.9''\<rparr>
   = Inr \<lparr>language = ''ar'', isRTL = True, direction = ''rtl''\<rparr>"
  by (simp add: rtlSupport_def resolveLanguage_def headerLanguage_def toLowerCase_def rtlLanguages_def Let_def)

text \<open>
  A repeated or bracketed \<^verbatim>\<open>lang\<close> parameter reaches \<^verbatim>\<open>toLowerCase\<close> as an array or
  object, and the middleware throws.
\<close>

lemma rtlSupport_composite_lang:
  "queryLang rq = Some QComposite \<Longrightarrow> rtlSupport rq = Inl TypeError"
  by (simp add: rtlSupport_def resolveLanguage_def)

section \<open>The language block\<close>




text \<open>The test on \<^verbatim>\<open>data\<close> is truthiness: a string will do.\<close>

lemma language_block_for_string_data:
  "jsonHook 2 \<lparr>language = ''en'', isRTL = False, direction = ''ltr''\<rparr>
     [Obj [(''status'', VStr ''success''), (''data'', VStr ''done'')]] (VRef 0)
   = Inr (NewObj None [(''status'', Val (VStr ''success'')), (''data'', Val (VStr ''done'')),
                   (''language'', NewObj None [(''code'', Val (VStr ''en'')),
                                          (''direction'', Val (VStr ''ltr'')),
                                          (''isRTL'', Val (VBool False))])])"
  by (simp add: jsonHook_def languageBlock_def truthyOut_def formatResponse_def truthy_def
        lookup_def endsWith_def slice0_def numeral_2_eq_2)

text \<open>
  The test reads inherited properties too: under rtl the value of \<^verbatim>\<open>__proto__Ar\<close> becomes
  the prototype of the formatted payload, and its \<^verbatim>\<open>status\<close> and \<^verbatim>\<open>data\<close> bring the
  block.
\<close>

lemma language_block_through_prototype:
  "jsonHook 2 \<lparr>language = ''ar'', isRTL = True, direction = ''rtl''\<rparr>
     [Obj [(''__proto__Ar'', VRef 1)], Obj [(''status'', VStr ''success''), (''data'', VNum 1)]]
     (VRef 0)
   = Inr (NewObj (Some (Val (VRef 1)))
            [(''language'', NewObj None [(''code'', Val (VStr ''ar'')),
                                         (''direction'', Val (VStr ''rtl'')),
                                         (''isRTL'', Val (VBool True))])])"
  by (simp add: jsonHook_def languageBlock_def truthyOut_def formatResponse_def truthy_def
        lookup_def endsWith_def slice0_def numeral_2_eq_2)

text \<open>
  A \<^verbatim>\<open>data\<close> object that an earlier key refers to as well is formatted to \<^verbatim>\<open>null\<close>,
  and the payload gets no block.
\<close>

lemma no_language_block_for_shared_data:
  "jsonHook 3 \<lparr>language = ''en'', isRTL = False, direction = ''ltr''\<rparr>
     [Obj [(''status'', VStr ''success''), (''meta'', VRef 1), (''data'', VRef 1)],
      Obj [(''id'', VNum 1)]] (VRef 0)
   = Inr (NewObj None [(''status'', Val (VStr ''success'')),
                       (''meta'', NewObj None [(''id'', Val (VNum 1))]),
                       (''data'', Val VNull)])"
  by (simp add: jsonHook_def languageBlock_def truthyOut_def formatResponse_def truthy_def
        lookup_def endsWith_def slice0_def eval_nat_numeral)

section \<open>Admin routes\<close>

text \<open>
  Claim C5: a booking status outside the fixed set is rejected with a validation error and
  the stored booking is left as it was. The validator records its error, but the handler
  does not read it: with a schema that accepts the document, the status is stored and the
  response is a success.
\<close>

theorem booking_status_not_enforced:
  "putBookingStatus (\<lambda>d. True) [''b1'' \<mapsto> \<lparr>status = ''pending'', createdAt = 0\<rparr>] ''b1'' ''bogus''
   = ([''Invalid status''], Success \<lparr>status = ''bogus'', createdAt = 0\<rparr>,
      [''b1'' \<mapsto> \<lparr>status = ''bogus'', createdAt = 0\<rparr>])"
  by (simp add: putBookingStatus_def bookingStatusValidator_def isIn_def bookingStatuses_def Let_def)

text \<open>
  For every status, in the list or not: when the booking exists and the schema accepts the
  document, the status is stored.
\<close>

lemma putBookingStatus_stores:
  "db bid = Some b \<Longrightarrow> schema (b\<lparr>status := s\<rparr>) \<Longrightarrow>
   putBookingStatus schema db bid s
     = (bookingStatusValidator s, Success (b\<lparr>status := s\<rparr>), db(bid \<mapsto> b\<lparr>status := s\<rparr>))"
  by (simp add: putBookingStatus_def Let_def)

text \<open>
  Claim C6: every count of the dashboard is the number of documents of its collection that
  match its filter: pending bookings, new contacts, bookings and contacts created at or
  after the start of the month, and the sizes of the five collections.
\<close>

theorem dashboard_counts:
  "pendingBookings (dashboard db som) = card {i. i < length (bookings db) \<and> status (bookings db ! i) = ''pending''}
 \<and> newContacts (dashboard db som) = card {i. i < length (contacts db) \<and> status (contacts db ! i) = ''new''}
 \<and> monthlyBookings (dashboard db som) = card {i. i < length (bookings db) \<and> som \<le> createdAt (bookings db ! i)}
 \<and> monthlyContacts (dashboard db som) = card {i. i < length (contacts db) \<and> som \<le> createdAt (contacts db ! i)}
 \<and> totalUsers (dashboard db som) = length (users db)
 \<and> totalServices (dashboard db som) = length (services db)
 \<and> totalBlogs (dashboard db som) = length (blogs db)
 \<and> totalContacts (dashboard db som) = length (contacts db)
 \<and> totalBookings (dashboard db som) = length (bookings db)"
  by (simp add: dashboard_def count_card)

text \<open>
  Claim C10: the two copies of the contact status route accept the same values, those of
  the buttons of the contact modal. The value \<^verbatim>\<open>in-progress\<close> is a button of the modal
  and is accepted by the second copy, but not by \<^verbatim>\<open>backend/routes/admin.js\<close>.
\<close>

theorem contact_status_lists_differ:
  "isIn ''in-progress'' contactModalStatuses \<and> isIn ''in-progress'' contactStatusesCopy
   \<and> \<not> isIn ''in-progress'' contactStatusesAdmin"
  by (simp add: isIn_def contactModalStatuses_def contactStatusesCopy_def contactStatusesAdmin_def)

end
